theory Spec2Isabelle
  imports Complex_Main
begin

section \<open>The file data source of the road vision agent\<close>

text \<open>
  The development embeds \<^verbatim>\<open>road_vision_agent/src/file_datasource.py\<close>: the class
  \<^verbatim>\<open>FileDatasource\<close>, which reads accelerometer and GPS samples from two CSV files
  and restarts from the beginning when a file is exhausted.

  A CSV file is represented by the list of rows that \<^verbatim>\<open>csv.reader\<close> yields for it, a
  row being the list of its text fields (an empty line yields the empty row). The file
  system maps a file name to that list, or to \<open>None\<close> when \<^verbatim>\<open>open\<close> raises for the name.
  The files are never written by the class, so the file system is a parameter and not
  part of the state. Characters are the 256 code points of Latin-1.
\<close>

subsection \<open>Data model\<close>

type_synonym row = "string list"

type_synonym filesystem = "string \<Rightarrow> row list option"

text \<open>
  The exceptions the class can raise, by their Python names. \<open>FileNotFoundError\<close> stands
  for any error with which \<^verbatim>\<open>open\<close> refuses a name.
\<close>

datatype error = FileNotFoundError | TypeError | IndexError | ValueError

text \<open>
  The fields of \<^verbatim>\<open>FileDatasource\<close>. An open file object is represented by the name it
  was opened with. A reader object is represented by the rows it has not yielded yet.
\<close>

record datasource =
  acc_filename :: string
  gps_filename :: string
  acc_file :: "string option"
  gps_file :: "string option"
  acc_reader :: "row list option"
  gps_reader :: "row list option"

text \<open>
  The domain classes \<^verbatim>\<open>Accelerometer\<close>, \<^verbatim>\<open>Gps\<close> and \<^verbatim>\<open>AggregatedData\<close>, with the
  fields the constructor calls of \<^verbatim>\<open>read\<close> name. The type \<open>'f\<close> stands for Python's
  \<^verbatim>\<open>float\<close> and \<open>'t\<close> for \<^verbatim>\<open>datetime\<close>.
\<close>

datatype accelerometer = Accelerometer (acc_x: int) (acc_y: int) (acc_z: int)

datatype 'f gps = Gps (longitude: 'f) (latitude: 'f)

datatype ('f, 't) aggregated_data =
  AggregatedData (accelerometer: accelerometer) (gps: "'f gps") (time: 't)

subsection \<open>Construction and closing\<close>

definition init :: "string \<Rightarrow> string \<Rightarrow> datasource" where
  "init accelerometer_filename gps_name =
     \<lparr>acc_filename = accelerometer_filename, gps_filename = gps_name,
      acc_file = None, gps_file = None, acc_reader = None, gps_reader = None\<rparr>"

definition close_files :: "datasource \<Rightarrow> datasource" where
  "close_files s = s\<lparr>acc_file := None, gps_file := None, acc_reader := None, gps_reader := None\<rparr>"

subsection \<open>Blank rows\<close>

text \<open>
  The characters \<^verbatim>\<open>str.strip()\<close> removes, among the first 256 code points: the ASCII
  white space, the four separators \<open>0x1C\<close> to \<open>0x1F\<close>, \<open>0x85\<close> and \<open>0xA0\<close>.
\<close>

definition is_space :: "char \<Rightarrow> bool" where
  "is_space c =
     (let n = of_char c :: nat in (9 \<le> n \<and> n \<le> 13) \<or> (28 \<le> n \<and> n \<le> 32) \<or> n = 133 \<or> n = 160)"

definition strip :: "string \<Rightarrow> string" where
  "strip c = rev (dropWhile is_space (rev (dropWhile is_space c)))"

text \<open>The loop condition of \<^verbatim>\<open>_next_row\<close>: the row has no field, or every field strips to nothing.\<close>

definition blank_row :: "row \<Rightarrow> bool" where
  "blank_row row = (length row = 0 \<or> list_all (\<lambda>c. strip c = []) row)"

text \<open>
  The \<^verbatim>\<open>try\<close> body of \<^verbatim>\<open>_next_row\<close> on a reader with the given rows left: the first row
  that is not blank together with the rows after it, or \<open>None\<close> when \<^verbatim>\<open>next\<close> raises
  \<^verbatim>\<open>StopIteration\<close> (the reader is then empty).
\<close>

fun skip_blank :: "row list \<Rightarrow> (row \<times> row list) option" where
  "skip_blank [] = None"
| "skip_blank (row # rest) = (if blank_row row then skip_blank rest else Some (row, rest))"

subsection \<open>Header detection and opening\<close>

text \<open>
  \<^verbatim>\<open>_skip_header_if_present\<close> on a reader with the given rows left; the result is what
  the reader has left afterwards. The parameter \<open>parse_float\<close> stands for the builtin
  \<^verbatim>\<open>float\<close> (\<open>None\<close> when it raises). Every \<^verbatim>\<open>return\<close> of the method comes after the
  \<^verbatim>\<open>next\<close> that took the row, and the \<^verbatim>\<open>raise ValueError\<close> of the numeric case is
  caught by the \<^verbatim>\<open>except Exception\<close> around it.
\<close>

definition skip_header_if_present :: "(string \<Rightarrow> 'f option) \<Rightarrow> row list \<Rightarrow> nat \<Rightarrow> row list" where
  "skip_header_if_present parse_float csv_reader expected_cols =
     (case csv_reader of
        [] \<Rightarrow> []
      | peek # rest \<Rightarrow>
          if length peek \<noteq> expected_cols then rest
          else (case peek of
                  [] \<Rightarrow> rest
                | field0 # _ \<Rightarrow>
                    (case parse_float field0 of
                       Some _ \<Rightarrow> rest
                     | None \<Rightarrow> rest)))"

text \<open>
  \<^verbatim>\<open>_open_files\<close>. The state is returned in both outcomes: when the second \<^verbatim>\<open>open\<close>
  raises, the first file object is already stored in \<^verbatim>\<open>self._acc_file\<close>.
\<close>

definition open_files ::
  "(string \<Rightarrow> 'f option) \<Rightarrow> filesystem \<Rightarrow> datasource \<Rightarrow> (error + unit) \<times> datasource" where
  "open_files parse_float fs s =
     (let s1 = close_files s in
      case fs (acc_filename s1) of
        None \<Rightarrow> (Inl FileNotFoundError, s1)
      | Some acc_rows \<Rightarrow>
          (let s2 = s1\<lparr>acc_file := Some (acc_filename s1)\<rparr> in
           case fs (gps_filename s2) of
             None \<Rightarrow> (Inl FileNotFoundError, s2)
           | Some gps_rows \<Rightarrow>
               (let s3 = s2\<lparr>gps_file := Some (gps_filename s2)\<rparr>;
                    s4 = s3\<lparr>acc_reader := Some acc_rows\<rparr>;
                    s5 = s4\<lparr>gps_reader := Some gps_rows\<rparr>;
                    s6 = s5\<lparr>acc_reader := Some (skip_header_if_present parse_float acc_rows 3)\<rparr>;
                    s7 = s6\<lparr>gps_reader := Some (skip_header_if_present parse_float gps_rows 2)\<rparr>
                in (Inr (), s7))))"

definition startReading ::
  "(string \<Rightarrow> 'f option) \<Rightarrow> filesystem \<Rightarrow> datasource \<Rightarrow> (error + unit) \<times> datasource" where
  "startReading parse_float fs s = open_files parse_float fs s"

definition stopReading :: "datasource \<Rightarrow> datasource" where
  "stopReading s = close_files s"

subsection \<open>Fetching the next row\<close>

text \<open>
  The reader argument of \<^verbatim>\<open>_next_row\<close> is, at both call sites of \<^verbatim>\<open>read\<close> and at the
  recursive call, the reader field that \<^verbatim>\<open>source\<close> selects, so the model reads and
  updates that field.
\<close>

definition reader_of :: "string \<Rightarrow> datasource \<Rightarrow> row list option" where
  "reader_of source s = (if source = ''acc'' then acc_reader s else gps_reader s)"

definition set_reader :: "string \<Rightarrow> row list \<Rightarrow> datasource \<Rightarrow> datasource" where
  "set_reader source rows s =
     (if source = ''acc'' then s\<lparr>acc_reader := Some rows\<rparr> else s\<lparr>gps_reader := Some rows\<rparr>)"

text \<open>
  \<^verbatim>\<open>_next_row\<close>. The recursion of the \<^verbatim>\<open>except StopIteration\<close> branch has no bound in
  the source, so the function is partial: \<open>None\<close> means that the call does not return a
  row and raises no exception of the class. (An interpreter with a bounded stack stops
  such a recursion with an error of its own; the depth is not part of the model.)
  \<^verbatim>\<open>next(None)\<close> raises \<^verbatim>\<open>TypeError\<close>.
\<close>

partial_function (option) next_row ::
  "(string \<Rightarrow> 'f option) \<Rightarrow> filesystem \<Rightarrow> string \<Rightarrow> datasource \<Rightarrow> ((error + row) \<times> datasource) option" where
  "next_row parse_float fs source s =
     (case reader_of source s of
        None \<Rightarrow> Some (Inl TypeError, s)
      | Some rows \<Rightarrow>
          (case skip_blank rows of
             Some (row, rest) \<Rightarrow> Some (Inr row, set_reader source rest s)
           | None \<Rightarrow>
               (case open_files parse_float fs (set_reader source [] s) of
                  (Inl e, s') \<Rightarrow> Some (Inl e, s')
                | (Inr u, s') \<Rightarrow> next_row parse_float fs source s')))"

subsection \<open>Reading one aggregated sample\<close>

text \<open>The subscript \<^verbatim>\<open>row[i]\<close>, which raises \<^verbatim>\<open>IndexError\<close> out of range.\<close>

definition field_at :: "row \<Rightarrow> nat \<Rightarrow> error + string" where
  "field_at row i = (if i < length row then Inr (row ! i) else Inl IndexError)"

text \<open>
  \<^verbatim>\<open>int(row[i])\<close> and \<^verbatim>\<open>float(row[i])\<close>: the subscript first, then the conversion, which
  raises \<^verbatim>\<open>ValueError\<close> on a field it cannot parse. The builtin is the parameter \<open>parse\<close>.
\<close>

definition convert :: "(string \<Rightarrow> 'a option) \<Rightarrow> row \<Rightarrow> nat \<Rightarrow> error + 'a" where
  "convert parse row i =
     (case field_at row i of
        Inl e \<Rightarrow> Inl e
      | Inr field \<Rightarrow> (case parse field of None \<Rightarrow> Inl ValueError | Some v \<Rightarrow> Inr v))"

text \<open>
  The last three statements of \<^verbatim>\<open>read\<close>: the five conversions in the order Python
  evaluates them, then the constructor calls. \<open>now\<close> is the value of \<^verbatim>\<open>datetime.utcnow()\<close>.
\<close>

definition assemble ::
  "(string \<Rightarrow> int option) \<Rightarrow> (string \<Rightarrow> 'f option) \<Rightarrow> 't \<Rightarrow> row \<Rightarrow> row \<Rightarrow> error + ('f, 't) aggregated_data" where
  "assemble parse_int parse_float now acc_row gps_row =
     (case convert parse_int acc_row 0 of Inl e \<Rightarrow> Inl e | Inr x \<Rightarrow>
     (case convert parse_int acc_row 1 of Inl e \<Rightarrow> Inl e | Inr y \<Rightarrow>
     (case convert parse_int acc_row 2 of Inl e \<Rightarrow> Inl e | Inr z \<Rightarrow>
     (case convert parse_float gps_row 0 of Inl e \<Rightarrow> Inl e | Inr lon \<Rightarrow>
     (case convert parse_float gps_row 1 of Inl e \<Rightarrow> Inl e | Inr lat \<Rightarrow>
        Inr (AggregatedData (Accelerometer x y z) (Gps lon lat) now))))))"

text \<open>The first statement of \<^verbatim>\<open>read\<close>: open the files when a reader is missing.\<close>

definition ensure_open ::
  "(string \<Rightarrow> 'f option) \<Rightarrow> filesystem \<Rightarrow> datasource \<Rightarrow> (error + unit) \<times> datasource" where
  "ensure_open parse_float fs s =
     (if acc_reader s = None \<or> gps_reader s = None then open_files parse_float fs s else (Inr (), s))"

text \<open>
  \<^verbatim>\<open>read\<close>. An exception leaves the method at once, with the state as it is then;
  \<open>None\<close> means that a call of \<^verbatim>\<open>_next_row\<close> does not return.
\<close>

definition read ::
  "(string \<Rightarrow> int option) \<Rightarrow> (string \<Rightarrow> 'f option) \<Rightarrow> filesystem \<Rightarrow> 't \<Rightarrow> datasource \<Rightarrow>
     ((error + ('f, 't) aggregated_data) \<times> datasource) option" where
  "read parse_int parse_float fs now s =
     (case ensure_open parse_float fs s of
        (Inl e, s0) \<Rightarrow> Some (Inl e, s0)
      | (Inr u, s0) \<Rightarrow>
          (case next_row parse_float fs ''acc'' s0 of
             None \<Rightarrow> None
           | Some (Inl e, s1) \<Rightarrow> Some (Inl e, s1)
           | Some (Inr acc_row, s1) \<Rightarrow>
               (case next_row parse_float fs ''gps'' s1 of
                  None \<Rightarrow> None
                | Some (Inl e, s2) \<Rightarrow> Some (Inl e, s2)
                | Some (Inr gps_row, s2) \<Rightarrow>
                    Some (assemble parse_int parse_float now acc_row gps_row, s2))))"

subsection \<open>Drivers\<close>

text \<open>
  A caller that fetches \<open>n\<close> rows of one channel in succession, and a caller that calls
  \<^verbatim>\<open>read\<close> once for each of a list of clock values. Both keep the outcome of every
  call, an exception included, and go on with the state the call left.
\<close>

fun next_rows ::
  "(string \<Rightarrow> 'f option) \<Rightarrow> filesystem \<Rightarrow> string \<Rightarrow> nat \<Rightarrow> datasource \<Rightarrow>
     ((error + row) list \<times> datasource) option" where
  "next_rows parse_float fs source 0 s = Some ([], s)"
| "next_rows parse_float fs source (Suc n) s =
     (case next_row parse_float fs source s of
        None \<Rightarrow> None
      | Some (r, s') \<Rightarrow>
          (case next_rows parse_float fs source n s' of
             None \<Rightarrow> None
           | Some (rs, s'') \<Rightarrow> Some (r # rs, s'')))"

fun reads ::
  "(string \<Rightarrow> int option) \<Rightarrow> (string \<Rightarrow> 'f option) \<Rightarrow> filesystem \<Rightarrow> 't list \<Rightarrow> datasource \<Rightarrow>
     ((error + ('f, 't) aggregated_data) list \<times> datasource) option" where
  "reads parse_int parse_float fs [] s = Some ([], s)"
| "reads parse_int parse_float fs (now # clock) s =
     (case read parse_int parse_float fs now s of
        None \<Rightarrow> None
      | Some (r, s') \<Rightarrow>
          (case reads parse_int parse_float fs clock s' of
             None \<Rightarrow> None
           | Some (rs, s'') \<Rightarrow> Some (r # rs, s'')))"

subsection \<open>Decimal literals\<close>

text \<open>
  Parsers for plain decimal literals, used where a statement below is evaluated at a
  concrete input: surrounding white space, an optional sign, digits, and for the
  floating-point literal an optional fraction. On these literals the builtins \<^verbatim>\<open>int\<close>
  and \<^verbatim>\<open>float\<close> succeed with the same value (every value used below is a binary
  fraction, so \<^verbatim>\<open>float\<close> does not round it). The other forms the builtins accept
  (digit groups with underscores, exponents, \<^verbatim>\<open>inf\<close>, \<^verbatim>\<open>nan\<close>) are not among the
  inputs used below. The general statements take the parsers as parameters and hold
  for any function.
\<close>

definition is_digit :: "char \<Rightarrow> bool" where
  "is_digit c = (let n = of_char c :: nat in 48 \<le> n \<and> n \<le> 57)"

definition digits_val :: "string \<Rightarrow> nat" where
  "digits_val ds = foldl (\<lambda>a c. 10 * a + (of_char c - 48)) 0 ds"

definition unsigned :: "string \<Rightarrow> string" where
  "unsigned t = (case t of [] \<Rightarrow> [] | c # ds \<Rightarrow> if c = CHR ''-'' \<or> c = CHR ''+'' then ds else t)"

definition signum :: "string \<Rightarrow> int" where
  "signum t = (case t of [] \<Rightarrow> 1 | c # ds \<Rightarrow> if c = CHR ''-'' then - 1 else 1)"

definition dec_int :: "string \<Rightarrow> int option" where
  "dec_int field =
     (let t = strip field; ds = unsigned t in
      if ds \<noteq> [] \<and> list_all is_digit ds then Some (signum t * int (digits_val ds)) else None)"

definition dec_float :: "string \<Rightarrow> real option" where
  "dec_float field =
     (let t = strip field; ds = unsigned t;
          whole = takeWhile (\<lambda>c. c \<noteq> CHR ''.'') ds;
          frac = drop 1 (dropWhile (\<lambda>c. c \<noteq> CHR ''.'') ds)
      in if whole @ frac \<noteq> [] \<and> list_all is_digit (whole @ frac)
         then Some (real_of_int (signum t * int (digits_val (whole @ frac))) / 10 ^ length frac)
         else None)"

subsection \<open>Auxiliary notions for the statements\<close>

text \<open>
  The state \<^verbatim>\<open>_open_files\<close> leaves when both files can be opened, whose rows are \<open>a\<close>
  and \<open>g\<close>: both handles held, each reader one row past the start of its file.
\<close>

definition opened :: "datasource \<Rightarrow> row list \<Rightarrow> row list \<Rightarrow> datasource" where
  "opened s a g =
     s\<lparr>acc_file := Some (acc_filename s), gps_file := Some (gps_filename s),
       acc_reader := Some (tl a), gps_reader := Some (tl g)\<rparr>"

text \<open>The rows of the file that belongs to a channel, as \<^verbatim>\<open>_next_row\<close> selects the reader.\<close>

definition channel_rows :: "string \<Rightarrow> row list \<Rightarrow> row list \<Rightarrow> row list" where
  "channel_rows source a g = (if source = ''acc'' then a else g)"

text \<open>
  The rows a fetch searches: the rows its reader has left or, when none of them is a
  data row, the rows of the reopened file after its first row.
\<close>

definition pass_rows :: "row list \<Rightarrow> row list \<Rightarrow> row list" where
  "pass_rows reader rows = (if skip_blank reader = None then tl rows else reader)"

text \<open>The rows of a list that are not blank, in order.\<close>

definition data :: "row list \<Rightarrow> row list" where
  "data rows = filter (\<lambda>r. \<not> blank_row r) rows"

text \<open>
  A channel is stuck when its reader has only blank rows left and its file, both files
  being there, has only blank rows after the first.
\<close>

definition all_blank :: "filesystem \<Rightarrow> string \<Rightarrow> datasource \<Rightarrow> bool" where
  "all_blank fs source s =
     (\<exists>rows a g. reader_of source s = Some rows \<and> skip_blank rows = None \<and>
        fs (acc_filename s) = Some a \<and> fs (gps_filename s) = Some g \<and>
        skip_blank (tl (channel_rows source a g)) = None)"

text \<open>A file system with at most two files, and a data source constructed for their names.\<close>

definition two_files :: "row list option \<Rightarrow> row list option \<Rightarrow> filesystem" where
  "two_files a g =
     (\<lambda>name. if name = ''accelerometer.csv'' then a else if name = ''gps.csv'' then g else None)"

definition fresh :: datasource where
  "fresh = init ''accelerometer.csv'' ''gps.csv''"

definition gps_sample :: "row list" where
  "gps_sample = [[''longitude'', ''latitude''], [''10.5'', ''20.25''], [''11.5'', ''21.25'']]"

definition numeric_first_acc :: "row list" where
  "numeric_first_acc = [[''1'', ''2'', ''3''], [''4'', ''5'', ''6'']]"

definition short_first_acc :: "row list" where
  "short_first_acc = [[''1'', ''2''], [''4'', ''5'', ''6'']]"

definition only_blank_acc :: "row list" where
  "only_blank_acc = [[], ['' ''], ['''', ''  '', '''']]"

text \<open>
  What the specification calls a malformed record: an accelerometer row with fewer than
  three fields, a GPS row with fewer than two, or a required field that does not parse.
\<close>

definition malformed :: "(string \<Rightarrow> int option) \<Rightarrow> (string \<Rightarrow> 'f option) \<Rightarrow> row \<Rightarrow> row \<Rightarrow> bool" where
  "malformed parse_int parse_float acc_row gps_row =
     (length acc_row < 3 \<or> length gps_row < 2 \<or>
      list_ex (\<lambda>field. parse_int field = None) (take 3 acc_row) \<or>
      list_ex (\<lambda>field. parse_float field = None) (take 2 gps_row))"

text \<open>More files for the concrete inputs.\<close>

definition header_acc :: "row list" where
  "header_acc = [[''x'', ''y'', ''z''], [''1'', ''2''], [''1'', ''2'', ''3'']]"

definition single_gps :: "row list" where
  "single_gps = [[''longitude'', ''latitude''], [''10.5'', ''20.25'']]"

definition one_row_acc :: "row list" where
  "one_row_acc = [[''x'', ''y'', ''z''], [''1'', ''2'', ''3'']]"

definition two_row_acc :: "row list" where
  "two_row_acc = [[''x'', ''y'', ''z''], [''1'', ''2'', ''3''], [''1'', ''2'', ''3'']]"

subsection \<open>The stream of the specification\<close>

text \<open>
  The definitions of this subsection follow the words of the specification, not the code.

  The logically infinite stream of one channel: first the rows still to come in the
  current pass, then the rows of the source again and again; \<open>cyclic_rows cur ds k\<close> is
  its first \<open>k\<close> rows, and \<open>None\<close> when a row is due and the source has none.
\<close>

fun cyclic_rows :: "row list \<Rightarrow> row list \<Rightarrow> nat \<Rightarrow> row list option" where
  "cyclic_rows cur ds 0 = Some []"
| "cyclic_rows (c # cur) ds (Suc k) = map_option (Cons c) (cyclic_rows cur ds k)"
| "cyclic_rows [] [] (Suc k) = None"
| "cyclic_rows [] (d # ds) (Suc k) = map_option (Cons d) (cyclic_rows ds (d # ds) k)"

text \<open>
  The expected number of fields of a channel, and a header row: a row of the expected
  width whose first field does not parse as a floating-point number.
\<close>

definition expected_cols :: "string \<Rightarrow> nat" where
  "expected_cols source = (if source = ''acc'' then 3 else 2)"

definition is_header :: "(string \<Rightarrow> 'f option) \<Rightarrow> nat \<Rightarrow> row \<Rightarrow> bool" where
  "is_header parse_float n row =
     (length row = n \<and> (case row of [] \<Rightarrow> False | field0 # _ \<Rightarrow> parse_float field0 = None))"

text \<open>
  The non-empty rows of a source: its rows without the header, when the first row is
  one, and without the blank rows.
\<close>

definition source_rows :: "(string \<Rightarrow> 'f option) \<Rightarrow> string \<Rightarrow> row list \<Rightarrow> row list" where
  "source_rows parse_float source file =
     data (case file of
             [] \<Rightarrow> []
           | first # rest \<Rightarrow> if is_header parse_float (expected_cols source) first then rest else file)"

text \<open>
  No row is mistaken for a header: the first row of the file, which opening takes, is a
  header or a blank row (or the file has no row).
\<close>

definition no_data_row_dropped :: "(string \<Rightarrow> 'f option) \<Rightarrow> string \<Rightarrow> row list \<Rightarrow> bool" where
  "no_data_row_dropped parse_float source file =
     (case file of
        [] \<Rightarrow> True
      | first # rest \<Rightarrow> blank_row first \<or> is_header parse_float (expected_cols source) first)"

text \<open>
  \<open>blank_inserted rows rows'\<close>: the second list comes from the first by inserting blank
  rows, any number of times, each time between two rows that are not blank.
\<close>

inductive blank_inserted :: "row list \<Rightarrow> row list \<Rightarrow> bool" where
  same: "blank_inserted rows rows"
| insert: "blank_inserted rows (before @ after) \<Longrightarrow>
           list_ex (\<lambda>r. \<not> blank_row r) before \<Longrightarrow> list_ex (\<lambda>r. \<not> blank_row r) after \<Longrightarrow>
           list_all blank_row blanks \<Longrightarrow>
           blank_inserted rows (before @ blanks @ after)"

definition cycle_acc :: "row list" where
  "cycle_acc = [[''x'', ''y'', ''z''], [''1'', ''2'', ''3''], [''4'', ''5'', ''6'']]"

definition cycle_acc_blanks :: "row list" where
  "cycle_acc_blanks = [[''x'', ''y'', ''z''], [''1'', ''2'', ''3''], [], ['' '', ''''], [''4'', ''5'', ''6'']]"

section \<open>Properties\<close>

subsection \<open>Opening\<close>

lemma skip_header_if_present_tl: "skip_header_if_present pf rows n = tl rows"
  by (simp add: skip_header_if_present_def split: list.splits option.splits)

lemma open_files_ok:
  "fs (acc_filename s) = Some a \<Longrightarrow> fs (gps_filename s) = Some g \<Longrightarrow>
   open_files pf fs s = (Inr (), opened s a g)"
  by (simp add: open_files_def Let_def close_files_def skip_header_if_present_tl opened_def)

lemma open_files_no_acc:
  "fs (acc_filename s) = None \<Longrightarrow> open_files pf fs s = (Inl FileNotFoundError, close_files s)"
  by (simp add: open_files_def Let_def close_files_def)

lemma open_files_no_gps:
  "fs (acc_filename s) = Some a \<Longrightarrow> fs (gps_filename s) = None \<Longrightarrow>
   open_files pf fs s = (Inl FileNotFoundError, (close_files s)\<lparr>acc_file := Some (acc_filename s)\<rparr>)"
  by (simp add: open_files_def Let_def close_files_def)

lemma opened_set_reader [simp]: "opened (set_reader source rows s) a g = opened s a g"
  by (simp add: opened_def set_reader_def)

lemma close_files_set_reader [simp]: "close_files (set_reader source rows s) = close_files s"
  by (simp add: close_files_def set_reader_def)

lemma opened_names [simp]:
  "acc_filename (opened s a g) = acc_filename s" "gps_filename (opened s a g) = gps_filename s"
  by (simp_all add: opened_def)

lemma set_reader_names [simp]:
  "acc_filename (set_reader source rows s) = acc_filename s"
  "gps_filename (set_reader source rows s) = gps_filename s"
  by (simp_all add: set_reader_def)

lemma reader_of_opened [simp]:
  "reader_of source (opened s a g) = Some (tl (channel_rows source a g))"
  by (simp add: reader_of_def opened_def channel_rows_def)

lemma reader_of_set_reader [simp]: "reader_of source (set_reader source rows s) = Some rows"
  by (simp add: reader_of_def set_reader_def)

lemma two_files_fresh [simp]:
  "two_files a g (acc_filename fresh) = a" "two_files a g (gps_filename fresh) = g"
  by (simp_all add: two_files_def fresh_def init_def)

lemma fresh_closed [simp]:
  "acc_reader fresh = None" "gps_reader fresh = None" "acc_file fresh = None" "gps_file fresh = None"
  by (simp_all add: fresh_def init_def)

subsection \<open>One fetch\<close>

lemma next_row_hit:
  "reader_of source s = Some rows \<Longrightarrow> skip_blank rows = Some (row, rest) \<Longrightarrow>
   next_row pf fs source s = Some (Inr row, set_reader source rest s)"
  by (subst next_row.simps) simp

lemma next_row_reopen:
  "reader_of source s = Some rows \<Longrightarrow> skip_blank rows = None \<Longrightarrow>
   fs (acc_filename s) = Some a \<Longrightarrow> fs (gps_filename s) = Some g \<Longrightarrow>
   next_row pf fs source s = next_row pf fs source (opened s a g)"
  by (subst next_row.simps) (simp add: open_files_ok)

lemma next_row_wrap:
  "reader_of source s = Some rows \<Longrightarrow> skip_blank rows = None \<Longrightarrow>
   fs (acc_filename s) = Some a \<Longrightarrow> fs (gps_filename s) = Some g \<Longrightarrow>
   skip_blank (tl (channel_rows source a g)) = Some (row, rest) \<Longrightarrow>
   next_row pf fs source s = Some (Inr row, set_reader source rest (opened s a g))"
  by (simp add: next_row_reopen [of source s rows fs a g] next_row_hit)

lemma all_blank_opened:
  "all_blank fs source s \<Longrightarrow> fs (acc_filename s) = Some a \<Longrightarrow> fs (gps_filename s) = Some g \<Longrightarrow>
   all_blank fs source (opened s a g)"
  by (auto simp: all_blank_def)

text \<open>
  A stuck channel never returns: by the induction principle of the partial function,
  a call that returns is not stuck, since the reopened state is stuck again.
\<close>

lemma next_row_returns_not_all_blank:
  assumes "next_row pf fs source s = Some y"
  shows "\<not> all_blank fs source s"
proof (rule next_row.raw_induct [where P = "\<lambda>pf fs source s y. \<not> all_blank fs source s", OF _ assms])
  fix nr :: "(string \<Rightarrow> 'a option) \<Rightarrow> filesystem \<Rightarrow> string \<Rightarrow> datasource \<Rightarrow> ((error + row) \<times> datasource) option"
  fix pf fs source s y
  assume IH: "\<And>pf fs source s y. nr pf fs source s = Some y \<Longrightarrow> \<not> all_blank fs source s"
  assume body: "(case reader_of source s of
        None \<Rightarrow> Some (Inl TypeError, s)
      | Some rows \<Rightarrow>
          (case skip_blank rows of
             Some (row, rest) \<Rightarrow> Some (Inr row, set_reader source rest s)
           | None \<Rightarrow>
               (case open_files pf fs (set_reader source [] s) of
                  (Inl e, s') \<Rightarrow> Some (Inl e, s')
                | (Inr u, s') \<Rightarrow> nr pf fs source s'))) = Some y"
  show "\<not> all_blank fs source s"
  proof
    assume stuck: "all_blank fs source s"
    then obtain rows a g where c: "reader_of source s = Some rows" "skip_blank rows = None"
      "fs (acc_filename s) = Some a" "fs (gps_filename s) = Some g"
      unfolding all_blank_def by blast
    from body c have "nr pf fs source (opened s a g) = Some y"
      by (simp add: open_files_ok)
    from IH [OF this] all_blank_opened [OF stuck c(3,4)] show False by simp
  qed
qed

lemma next_row_diverges:
  "reader_of source s = Some rows \<Longrightarrow> skip_blank rows = None \<Longrightarrow>
   fs (acc_filename s) = Some a \<Longrightarrow> fs (gps_filename s) = Some g \<Longrightarrow>
   skip_blank (tl (channel_rows source a g)) = None \<Longrightarrow>
   next_row pf fs source s = None"
  using next_row_returns_not_all_blank [of pf fs source s]
  by (cases "next_row pf fs source s") (auto simp: all_blank_def)

text \<open>The fetch without recursion, for a state whose two files can be opened.\<close>

lemma next_row_closed_form:
  assumes "fs (acc_filename s) = Some a" and "fs (gps_filename s) = Some g"
  shows "next_row pf fs source s =
     (case reader_of source s of
        None \<Rightarrow> Some (Inl TypeError, s)
      | Some rows \<Rightarrow>
          (case skip_blank rows of
             Some (row, rest) \<Rightarrow> Some (Inr row, set_reader source rest s)
           | None \<Rightarrow>
               (case skip_blank (tl (channel_rows source a g)) of
                  Some (row, rest) \<Rightarrow> Some (Inr row, set_reader source rest (opened s a g))
                | None \<Rightarrow> None)))"
proof (cases "reader_of source s")
  case None
  then show ?thesis by (subst next_row.simps) simp
next
  case (Some rows)
  show ?thesis
  proof (cases "skip_blank rows")
    case hit: (Some p)
    with Some show ?thesis by (cases p) (simp add: next_row_hit)
  next
    case None
    show ?thesis
    proof (cases "skip_blank (tl (channel_rows source a g))")
      case stuck: None
      with Some None assms show ?thesis by (simp add: next_row_diverges)
    next
      case again: (Some p)
      with Some None assms show ?thesis by (cases p) (simp add: next_row_wrap)
    qed
  qed
qed

subsection \<open>Parsing a pair of rows\<close>

lemma convert_eq:
  "convert p row i =
     (if i < length row then (case p (row ! i) of None \<Rightarrow> Inl ValueError | Some v \<Rightarrow> Inr v)
      else Inl IndexError)"
  by (simp add: convert_def field_at_def)

lemma convert_error: "convert p row i = Inl e \<Longrightarrow> e = IndexError \<or> e = ValueError"
  by (auto simp: convert_eq split: if_splits option.splits)

lemma convert_ok:
  "(\<exists>v. convert p row i = Inr v) \<longleftrightarrow> i < length row \<and> p (row ! i) \<noteq> None"
  by (auto simp: convert_eq split: option.splits)

lemma list_ex_take:
  "list_ex P (take n xs) \<longleftrightarrow> (\<exists>i. i < n \<and> i < length xs \<and> P (xs ! i))"
  by (force simp: list_ex_iff in_set_conv_nth)

lemma assemble_error: "assemble pint pf now a g = Inl e \<Longrightarrow> e = IndexError \<or> e = ValueError"
  unfolding assemble_def by (auto split: sum.splits dest: convert_error)

lemma below_3: "i < (3::nat) \<longleftrightarrow> i = 0 \<or> i = 1 \<or> i = 2"
  by arith

lemma below_2: "i < (2::nat) \<longleftrightarrow> i = 0 \<or> i = 1"
  by arith

lemma assemble_ok_iff:
  "(\<exists>r. assemble pint pf now a g = Inr r) \<longleftrightarrow> \<not> malformed pint pf a g"
proof
  assume "\<exists>r. assemble pint pf now a g = Inr r"
  then have c: "\<exists>v. convert pint a 0 = Inr v" "\<exists>v. convert pint a 1 = Inr v" "\<exists>v. convert pint a 2 = Inr v"
    "\<exists>v. convert pf g 0 = Inr v" "\<exists>v. convert pf g 1 = Inr v"
    unfolding assemble_def by (auto split: sum.splits)
  then show "\<not> malformed pint pf a g"
    unfolding convert_ok malformed_def list_ex_take below_3 below_2 by auto
next
  assume wf: "\<not> malformed pint pf a g"
  have la: "3 \<le> length a" and lg: "2 \<le> length g"
    using wf by (simp_all add: malformed_def not_less)
  have pa: "pint (a ! i) \<noteq> None" if "i < 3" for i
  proof -
    from la that have "i < length a" by simp
    with wf that show ?thesis by (auto simp: malformed_def list_ex_take)
  qed
  have pg: "pf (g ! i) \<noteq> None" if "i < 2" for i
  proof -
    from lg that have "i < length g" by simp
    with wf that show ?thesis by (auto simp: malformed_def list_ex_take)
  qed
  from la lg pa [of 0] pa [of 1] pa [of 2] pg [of 0] pg [of 1]
  have "\<exists>v. convert pint a 0 = Inr v" "\<exists>v. convert pint a 1 = Inr v" "\<exists>v. convert pint a 2 = Inr v"
    "\<exists>v. convert pf g 0 = Inr v" "\<exists>v. convert pf g 1 = Inr v"
    unfolding convert_ok by auto
  then show "\<exists>r. assemble pint pf now a g = Inr r"
    unfolding assemble_def by auto
qed

lemma assemble_malformed:
  assumes "malformed pint pf a g"
  shows "\<exists>e. (e = IndexError \<or> e = ValueError) \<and> assemble pint pf now a g = Inl e"
proof (cases "assemble pint pf now a g")
  case (Inl e)
  then show ?thesis using assemble_error [OF Inl] by simp
next
  case (Inr r)
  with assms assemble_ok_iff [of pint pf now a g] show ?thesis by auto
qed

subsection \<open>The two fetches of a read\<close>

text \<open>
  What \<^verbatim>\<open>read\<close> returns and where it leaves the two readers, from the rows the readers
  have left and the rows of the files: both fetches return, whether or not one of them
  restarts the sources.
\<close>

lemma read_two_fetches:
  assumes "ensure_open pf fs s = (Inr (), s0)"
    and "fs (acc_filename s0) = Some a" and "fs (gps_filename s0) = Some g"
    and "acc_reader s0 = Some ra" and "gps_reader s0 = Some rg"
    and "skip_blank (pass_rows ra a) = Some (acc_row, ra')"
    and "skip_blank (pass_rows (if skip_blank ra = None then tl g else rg) g) = Some (gps_row, rg')"
  shows "\<exists>s2. read pint pf fs now s = Some (assemble pint pf now acc_row gps_row, s2) \<and>
           acc_reader s2 =
             Some (if skip_blank (if skip_blank ra = None then tl g else rg) = None then tl a else ra') \<and>
           gps_reader s2 = Some rg'"
proof (cases "skip_blank ra")
  case None
  with assms(6) have a: "skip_blank (tl a) = Some (acc_row, ra')" by (simp add: pass_rows_def)
  let ?s1 = "set_reader ''acc'' ra' (opened s0 a g)"
  from None a assms(2-4) have 1: "next_row pf fs ''acc'' s0 = Some (Inr acc_row, ?s1)"
    by (simp add: next_row_wrap reader_of_def channel_rows_def)
  from None assms(7) have g: "skip_blank (tl g) = Some (gps_row, rg')"
    by (cases "skip_blank (tl g)") (simp_all add: pass_rows_def)
  from g have 2: "next_row pf fs ''gps'' ?s1 = Some (Inr gps_row, set_reader ''gps'' rg' ?s1)"
    by (intro next_row_hit [where rows = "tl g"]) (simp_all add: reader_of_def set_reader_def opened_def)
  from assms(1) 1 2 None g show ?thesis
    by (simp add: read_def set_reader_def opened_def)
next
  case (Some p)
  with assms(6) have a: "skip_blank ra = Some (acc_row, ra')" by (simp add: pass_rows_def)
  let ?s1 = "set_reader ''acc'' ra' s0"
  from a assms(4) have 1: "next_row pf fs ''acc'' s0 = Some (Inr acc_row, ?s1)"
    by (simp add: next_row_hit reader_of_def)
  have r: "reader_of ''gps'' ?s1 = Some rg"
    using assms(5) by (simp add: reader_of_def set_reader_def)
  show ?thesis
  proof (cases "skip_blank rg")
    case None
    with a assms(7) have g: "skip_blank (tl g) = Some (gps_row, rg')" by (simp add: pass_rows_def)
    from r None g assms(2,3)
    have 2: "next_row pf fs ''gps'' ?s1 = Some (Inr gps_row, set_reader ''gps'' rg' (opened ?s1 a g))"
      by (intro next_row_wrap [where rows = rg]) (simp_all add: channel_rows_def)
    from assms(1) 1 2 a None show ?thesis
      by (simp add: read_def set_reader_def opened_def)
  next
    case hit: (Some q)
    with a assms(7) have g: "skip_blank rg = Some (gps_row, rg')" by (simp add: pass_rows_def)
    from r g have 2: "next_row pf fs ''gps'' ?s1 = Some (Inr gps_row, set_reader ''gps'' rg' ?s1)"
      by (rule next_row_hit)
    from assms(1) 1 2 a g show ?thesis
      by (simp add: read_def set_reader_def)
  qed
qed


lemmas literal = dec_int_def dec_float_def unsigned_def signum_def is_digit_def digits_val_def

lemmas fetch = blank_row_def strip_def is_space_def channel_rows_def reader_of_def set_reader_def
  opened_def

subsection \<open>Repeated fetches refine the stream\<close>

lemma skip_blank_None_iff: "skip_blank rows = None \<longleftrightarrow> data rows = []"
  by (induction rows) (simp_all add: data_def)

lemma skip_blank_Some: "skip_blank rows = Some (r, rest) \<Longrightarrow> data rows = r # data rest"
  by (induction rows) (auto simp: data_def split: if_splits)

lemma skip_blank_data:
  "data rows = d # ds \<Longrightarrow> \<exists>rest. skip_blank rows = Some (d, rest) \<and> data rest = ds"
proof (cases "skip_blank rows")
  case None
  assume "data rows = d # ds"
  with None show ?thesis by (simp add: skip_blank_None_iff)
next
  case (Some p)
  assume "data rows = d # ds"
  with Some skip_blank_Some [of rows "fst p" "snd p"] show ?thesis by (cases p) simp
qed

lemma map_option_fst_step:
  "map_option fst (case m of None \<Rightarrow> None | Some (rs, t) \<Rightarrow> Some (r # rs, t)) =
   map_option (Cons r) (map_option fst m)"
  by (cases m) auto

lemma next_rows_cyclic:
  assumes "fs (acc_filename s) = Some a" and "fs (gps_filename s) = Some g"
    and "reader_of source s = Some rows"
  shows "map_option fst (next_rows pf fs source k s) =
         map_option (map Inr) (cyclic_rows (data rows) (data (tl (channel_rows source a g))) k)"
  using assms
proof (induction k arbitrary: s rows)
  case 0
  show ?case by simp
next
  case (Suc k)
  note files = Suc.prems(1,2)
  show ?case
  proof (cases "data rows")
    case (Cons c cur)
    from skip_blank_data [OF Cons] obtain rest where
      r: "skip_blank rows = Some (c, rest)" "data rest = cur" by blast
    have "map_option fst (next_rows pf fs source k (set_reader source rest s)) =
          map_option (map Inr) (cyclic_rows (data rest) (data (tl (channel_rows source a g))) k)"
      by (rule Suc.IH) (simp_all add: files)
    with r Cons Suc.prems(3) show ?thesis
      by (simp add: next_row_hit map_option_fst_step option.map_comp comp_def)
  next
    case Nil
    then have none: "skip_blank rows = None" by (simp add: skip_blank_None_iff)
    show ?thesis
    proof (cases "data (tl (channel_rows source a g))")
      case stuck: Nil
      then have "skip_blank (tl (channel_rows source a g)) = None" by (simp add: skip_blank_None_iff)
      with none Suc.prems Nil stuck show ?thesis by (simp add: next_row_diverges)
    next
      case (Cons d ds)
      from skip_blank_data [OF Cons] obtain rest where
        r: "skip_blank (tl (channel_rows source a g)) = Some (d, rest)" "data rest = ds" by blast
      have "map_option fst (next_rows pf fs source k (set_reader source rest (opened s a g))) =
            map_option (map Inr) (cyclic_rows (data rest) (data (tl (channel_rows source a g))) k)"
        by (rule Suc.IH) (simp_all add: files)
      with r Cons Nil none Suc.prems show ?thesis
        by (simp add: next_row_wrap map_option_fst_step option.map_comp comp_def)
    qed
  qed
qed

lemma upt_0_Suc: "[0..<Suc k] = 0 # map Suc [0..<k]"
  by (simp add: map_Suc_upt upt_conv_Cons del: upt_Suc)

lemma cyclic_rows_index:
  assumes "ds \<noteq> []"
  shows "j \<le> length ds \<Longrightarrow>
         cyclic_rows (drop j ds) ds k = Some (map (\<lambda>i. ds ! ((j + i) mod length ds)) [0..<k])"
proof (induction k arbitrary: j)
  case 0
  show ?case by simp
next
  case (Suc k)
  show ?case
  proof (cases "j < length ds")
    case True
    then have d: "drop j ds = ds ! j # drop (Suc j) ds" by (simp add: Cons_nth_drop_Suc)
    from True have "cyclic_rows (drop (Suc j) ds) ds k =
        Some (map (\<lambda>i. ds ! ((Suc j + i) mod length ds)) [0..<k])"
      by (intro Suc.IH) simp
    with True d show ?thesis
      by (simp add: upt_0_Suc comp_def del: upt_Suc)
  next
    case False
    with Suc.prems have j: "j = length ds" by simp
    from assms obtain d ds' where ds: "ds = d # ds'" by (cases ds) auto
    have "cyclic_rows (drop 1 ds) ds k = Some (map (\<lambda>i. ds ! ((1 + i) mod length ds)) [0..<k])"
      by (intro Suc.IH) (simp add: ds)
    then have "cyclic_rows ds' (d # ds') k = Some (map (\<lambda>i. (d # ds') ! (Suc i mod Suc (length ds'))) [0..<k])"
      by (simp add: ds)
    moreover have "Suc (Suc (length ds' + i)) mod Suc (length ds') = Suc i mod Suc (length ds')" for i
    proof -
      have "Suc (Suc (length ds' + i)) = Suc (length ds') + Suc i" by simp
      then show ?thesis by (simp only: mod_add_self1)
    qed
    ultimately show ?thesis using j
      by (simp add: ds upt_0_Suc comp_def del: upt_Suc)
  qed
qed


lemma source_rows_after_first:
  "no_data_row_dropped pf source rows \<Longrightarrow> source_rows pf source rows = data (tl rows)"
  by (cases rows) (auto simp: no_data_row_dropped_def source_rows_def data_def)

lemma data_blanks: "list_all blank_row blanks \<Longrightarrow> data blanks = []"
  by (induction blanks) (simp_all add: data_def)

lemma data_append: "data (xs @ ys) = data xs @ data ys"
  by (simp add: data_def)

lemma blank_inserted_data: "blank_inserted xs ys \<Longrightarrow> data (tl xs) = data (tl ys)"
proof (induction rule: blank_inserted.induct)
  case (same rows)
  show ?case by simp
next
  case (insert rows before after blanks)
  from insert.hyps(2) have "before \<noteq> []" by auto
  with insert.IH insert.hyps(4) show ?case
    by (simp add: data_append data_blanks)
qed

lemma cyclic_rows_from: "cyclic_rows cur ds k = Some out \<Longrightarrow> set out \<subseteq> set cur \<union> set ds"
  by (induction cur ds k arbitrary: out rule: cyclic_rows.induct) auto

lemma data_not_blank: "r \<in> set (data rows) \<Longrightarrow> \<not> blank_row r"
  by (simp add: data_def)

lemma cycle_acc_inserted: "blank_inserted cycle_acc cycle_acc_blanks"
proof -
  have "blank_inserted cycle_acc ([[''x'', ''y'', ''z''], [''1'', ''2'', ''3'']] @ [[''4'', ''5'', ''6'']])"
    by (simp add: cycle_acc_def blank_inserted.same)
  then have "blank_inserted cycle_acc
      ([[''x'', ''y'', ''z''], [''1'', ''2'', ''3'']] @ [[], ['' '', '''']] @ [[''4'', ''5'', ''6'']])"
    by (rule blank_inserted.insert) (simp_all add: blank_row_def strip_def is_space_def)
  then show ?thesis by (simp add: cycle_acc_blanks_def)
qed

section \<open>The statements of the specification\<close>

text \<open>
  C1. A first row with the expected number of fields whose first field is numeric is
  data and has to be returned by the first fetch. The code does not do so: with the
  accelerometer rows \<open>1,2,3\<close> and \<open>4,5,6\<close>, opening succeeds and the two fetches that
  follow return \<open>4,5,6\<close> and, after the restart, \<open>4,5,6\<close> again; the row \<open>1,2,3\<close> is
  never returned.
\<close>

theorem numeric_first_row_dropped:
  "(case startReading dec_float (two_files (Some numeric_first_acc) (Some gps_sample)) fresh of
      (r, s) \<Rightarrow>
        r = Inr () \<and>
        map_option fst
          (next_rows dec_float (two_files (Some numeric_first_acc) (Some gps_sample)) ''acc'' 2 s) =
          Some [Inr [''4'', ''5'', ''6''], Inr [''4'', ''5'', ''6'']])"
  by (simp add: startReading_def open_files_ok numeral_2_eq_2
      next_row_closed_form [where a = numeric_first_acc and g = gps_sample]
      numeric_first_acc_def blank_row_def strip_def is_space_def channel_rows_def)

text \<open>
  C2. The GPS rows delivered by successive calls of \<^verbatim>\<open>read\<close> depend on the restarts of
  the accelerometer channel. With the same GPS file of two data rows, an accelerometer
  file of one data row makes the second \<^verbatim>\<open>read\<close> deliver the first GPS row again, while
  an accelerometer file of two data rows makes it deliver the second GPS row.
\<close>

theorem gps_restarts_with_accelerometer:
  "map_option fst
     (reads dec_int dec_float (two_files (Some one_row_acc) (Some gps_sample)) [0::nat, 1] fresh) =
     Some [Inr (AggregatedData (Accelerometer 1 2 3) (Gps (21 / 2) (81 / 4)) 0),
           Inr (AggregatedData (Accelerometer 1 2 3) (Gps (21 / 2) (81 / 4)) 1)] \<and>
   map_option fst
     (reads dec_int dec_float (two_files (Some two_row_acc) (Some gps_sample)) [0::nat, 1] fresh) =
     Some [Inr (AggregatedData (Accelerometer 1 2 3) (Gps (21 / 2) (81 / 4)) 0),
           Inr (AggregatedData (Accelerometer 1 2 3) (Gps (23 / 2) (85 / 4)) 1)]"
  by (simp add: read_def ensure_open_def open_files_ok
      next_row_closed_form [where a = one_row_acc and g = gps_sample]
      next_row_closed_form [where a = two_row_acc and g = gps_sample]
      one_row_acc_def two_row_acc_def gps_sample_def fetch assemble_def convert_def field_at_def literal)

text \<open>
  C2, as amended. The two readers do not restart independently: when a fetch finds its
  channel exhausted, both files are opened again, the fetch returns the first row of its
  channel that is not blank after the first row of the file, and the reader of the other
  channel is put back to the second row of its file, wherever it was.
\<close>

theorem exhausted_channel_reopens_both:
  assumes "reader_of source s = Some rows" and "skip_blank rows = None"
    and "fs (acc_filename s) = Some a" and "fs (gps_filename s) = Some g"
    and "skip_blank (tl (channel_rows source a g)) = Some (row, rest)"
  shows "next_row pf fs source s =
           Some (Inr row,
                 s\<lparr>acc_file := Some (acc_filename s), gps_file := Some (gps_filename s),
                   acc_reader := Some (if source = ''acc'' then rest else tl a),
                   gps_reader := Some (if source = ''acc'' then tl g else rest)\<rparr>)"
  using assms by (simp add: next_row_wrap set_reader_def opened_def)

theorem exhausted_channel_reopens_both_witness:
  "next_row dec_float (two_files (Some one_row_acc) (Some gps_sample)) ''acc''
     (fresh\<lparr>acc_file := Some ''accelerometer.csv'', gps_file := Some ''gps.csv'',
             acc_reader := Some [], gps_reader := Some [[''11.5'', ''21.25'']]\<rparr>) =
   Some (Inr [''1'', ''2'', ''3''],
         fresh\<lparr>acc_file := Some ''accelerometer.csv'', gps_file := Some ''gps.csv'',
               acc_reader := Some [], gps_reader := Some [[''10.5'', ''20.25''], [''11.5'', ''21.25'']]\<rparr>)"
  using exhausted_channel_reopens_both [of "''acc''"
      "fresh\<lparr>acc_file := Some ''accelerometer.csv'', gps_file := Some ''gps.csv'',
             acc_reader := Some [], gps_reader := Some [[''11.5'', ''21.25'']]\<rparr>"
      "[]" "two_files (Some one_row_acc) (Some gps_sample)" one_row_acc gps_sample
      "[''1'', ''2'', ''3'']" "[]" dec_float]
  by (simp add: one_row_acc_def gps_sample_def fetch fresh_def init_def two_files_def)

text \<open>
  C3. For a source with at least one non-empty row and no row mistaken for a header,
  the fetches that follow a successful open return the non-empty rows of the source
  cyclically, for any number of fetches: fetch number \<open>i\<close>, counted from 0, returns row
  \<open>i mod N\<close> of the \<open>N\<close> rows, so fetch \<open>N + 1\<close> returns the first of them again.
\<close>

theorem fetches_cycle_through_source:
  assumes "fs (acc_filename s) = Some a" and "fs (gps_filename s) = Some g"
    and "no_data_row_dropped pf source (channel_rows source a g)"
    and "source_rows pf source (channel_rows source a g) = ds" and "ds \<noteq> []"
  shows "\<exists>s'. startReading pf fs s = (Inr (), s') \<and>
           map_option fst (next_rows pf fs source k s') =
             Some (map (\<lambda>i. Inr (ds ! (i mod length ds))) [0..<k]) \<and>
           map_option (\<lambda>p. fst p ! length ds) (next_rows pf fs source (Suc (length ds)) s') =
             Some (Inr (ds ! 0))"
proof -
  let ?s' = "opened s a g"
  from assms(3,4) have ds: "data (tl (channel_rows source a g)) = ds"
    by (simp add: source_rows_after_first)
  have cyc: "map_option fst (next_rows pf fs source n ?s') =
      Some (map (\<lambda>i. Inr (ds ! (i mod length ds))) [0..<n])" for n
  proof -
    have "map_option fst (next_rows pf fs source n ?s') =
        map_option (map Inr) (cyclic_rows (data (tl (channel_rows source a g)))
          (data (tl (channel_rows source a g))) n)"
      by (rule next_rows_cyclic) (simp_all add: assms(1,2))
    also have "\<dots> = map_option (map Inr) (cyclic_rows (drop 0 ds) ds n)"
      by (simp add: ds)
    also have "\<dots> = Some (map (\<lambda>i. Inr (ds ! (i mod length ds))) [0..<n])"
      by (simp only: cyclic_rows_index [OF assms(5), of 0 n]) (simp add: comp_def)
    finally show ?thesis .
  qed
  have "map_option (\<lambda>p. fst p ! length ds) (next_rows pf fs source (Suc (length ds)) ?s') =
      map_option (\<lambda>rs. rs ! length ds) (map_option fst (next_rows pf fs source (Suc (length ds)) ?s'))"
    by (simp add: option.map_comp comp_def)
  also have "\<dots> = Some (Inr (ds ! 0))"
    by (simp only: cyc) (simp add: nth_append del: upt_Suc)
  finally have last: "map_option (\<lambda>p. fst p ! length ds) (next_rows pf fs source (Suc (length ds)) ?s') =
      Some (Inr (ds ! 0))" .
  from assms(1,2) have "startReading pf fs s = (Inr (), ?s')"
    by (simp add: startReading_def open_files_ok)
  with cyc [of k] last show ?thesis by blast
qed

theorem fetches_cycle_through_source_witness:
  "\<exists>s'. startReading dec_float (two_files (Some cycle_acc_blanks) (Some gps_sample)) fresh = (Inr (), s') \<and>
     map_option fst (next_rows dec_float (two_files (Some cycle_acc_blanks) (Some gps_sample)) ''acc'' 3 s') =
       Some [Inr [''1'', ''2'', ''3''], Inr [''4'', ''5'', ''6''], Inr [''1'', ''2'', ''3'']]"
proof -
  have h: "no_data_row_dropped dec_float ''acc'' (channel_rows ''acc'' cycle_acc_blanks gps_sample)"
    by (simp add: no_data_row_dropped_def channel_rows_def cycle_acc_blanks_def is_header_def
        expected_cols_def literal strip_def is_space_def)
  have d: "source_rows dec_float ''acc'' (channel_rows ''acc'' cycle_acc_blanks gps_sample) =
      [[''1'', ''2'', ''3''], [''4'', ''5'', ''6'']]"
    by (simp add: source_rows_def channel_rows_def cycle_acc_blanks_def is_header_def
        expected_cols_def literal data_def blank_row_def strip_def is_space_def)
  have e: "map (\<lambda>i. Inr (([[''1'', ''2'', ''3''], [''4'', ''5'', ''6'']] :: row list) !
        (i mod length ([[''1'', ''2'', ''3''], [''4'', ''5'', ''6'']] :: row list)))) [0..<3] =
      ([Inr [''1'', ''2'', ''3''], Inr [''4'', ''5'', ''6''], Inr [''1'', ''2'', ''3'']] :: (error + row) list)"
    by (simp add: upt_rec)
  from fetches_cycle_through_source [of "two_files (Some cycle_acc_blanks) (Some gps_sample)" fresh
      cycle_acc_blanks gps_sample dec_float "''acc''" "[[''1'', ''2'', ''3''], [''4'', ''5'', ''6'']]" 3, OF _ _ h d]
  obtain s' where 1: "startReading dec_float (two_files (Some cycle_acc_blanks) (Some gps_sample)) fresh = (Inr (), s')"
    and 2: "map_option fst (next_rows dec_float (two_files (Some cycle_acc_blanks) (Some gps_sample)) ''acc'' 3 s') =
      Some (map (\<lambda>i. Inr (([[''1'', ''2'', ''3''], [''4'', ''5'', ''6'']] :: row list) !
        (i mod length ([[''1'', ''2'', ''3''], [''4'', ''5'', ''6'']] :: row list)))) [0..<3])"
    by auto
  from 2 have "map_option fst (next_rows dec_float (two_files (Some cycle_acc_blanks) (Some gps_sample)) ''acc'' 3 s') =
      Some [Inr [''1'', ''2'', ''3''], Inr [''4'', ''5'', ''6''], Inr [''1'', ''2'', ''3'']]"
    by (simp only: e)
  with 1 show ?thesis by blast
qed

text \<open>
  C4. When a source cannot be acquired, \<^verbatim>\<open>startReading\<close> fails with \<^verbatim>\<open>FileNotFoundError\<close>
  (the error the specification calls SourceUnavailable) and no reader is left. A handle
  can remain, though: with the accelerometer file there and the GPS file missing, the
  accelerometer file object opened just before is still stored when the error reaches
  the caller.
\<close>

theorem gps_missing_leaves_acc_open:
  "(case startReading dec_float (two_files (Some numeric_first_acc) None) fresh of
      (r, s) \<Rightarrow> r = Inl FileNotFoundError \<and> acc_file s = Some ''accelerometer.csv'')"
  by (simp add: startReading_def open_files_no_gps [where a = numeric_first_acc]
      fresh_def init_def two_files_def close_files_def)

text \<open>
  C4, as amended. When at least one source cannot be acquired, \<^verbatim>\<open>startReading\<close> fails
  with \<^verbatim>\<open>FileNotFoundError\<close>, both readers are unset and no GPS handle is held; the
  accelerometer handle is unset when the accelerometer source is the one that cannot
  be acquired, and it is held when only the GPS source cannot be acquired.
\<close>

theorem startReading_source_unavailable:
  assumes "fs (acc_filename s) = None \<or> fs (gps_filename s) = None"
  shows "(case startReading pf fs s of
            (r, s') \<Rightarrow>
              r = Inl FileNotFoundError \<and> acc_reader s' = None \<and> gps_reader s' = None \<and>
              gps_file s' = None \<and>
              acc_file s' = (if fs (acc_filename s) = None then None else Some (acc_filename s)))"
proof (cases "fs (acc_filename s)")
  case None
  then show ?thesis by (simp add: startReading_def open_files_no_acc close_files_def)
next
  case (Some a)
  with assms have "fs (gps_filename s) = None" by simp
  with Some show ?thesis by (simp add: startReading_def open_files_no_gps close_files_def)
qed

theorem startReading_source_unavailable_witness:
  "(case startReading dec_float (two_files None (Some gps_sample)) fresh of
      (r, s') \<Rightarrow>
        r = Inl FileNotFoundError \<and> acc_reader s' = None \<and> gps_reader s' = None \<and>
        gps_file s' = None \<and> acc_file s' = None)"
  using startReading_source_unavailable [of "two_files None (Some gps_sample)" fresh dec_float]
  by simp

text \<open>
  C5. A \<^verbatim>\<open>read\<close> that fails on a malformed record raises \<^verbatim>\<open>IndexError\<close> or \<^verbatim>\<open>ValueError\<close>
  and returns no reading, but it does not always leave the accelerometer reader past
  the bad row. With the accelerometer rows \<open>x,y,z\<close>, \<open>1,2\<close>, \<open>1,2,3\<close> and one GPS data
  row, the third \<^verbatim>\<open>read\<close> fetches the bad row \<open>1,2\<close>, its GPS fetch restarts both sources,
  and the call fails with the accelerometer reader in front of the row \<open>1,2\<close> again; the
  fourth and the fifth \<^verbatim>\<open>read\<close> fail on the same row.
\<close>

theorem bad_row_fetched_again:
  "map_option (\<lambda>p. (fst p, acc_reader (snd p)))
     (reads dec_int dec_float (two_files (Some header_acc) (Some single_gps)) [0::nat, 1, 2] fresh) =
     Some ([Inl IndexError,
            Inr (AggregatedData (Accelerometer 1 2 3) (Gps (21 / 2) (81 / 4)) 1),
            Inl IndexError],
           Some [[''1'', ''2''], [''1'', ''2'', ''3'']]) \<and>
   map_option fst
     (reads dec_int dec_float (two_files (Some header_acc) (Some single_gps)) [0::nat, 1, 2, 3, 4] fresh) =
     Some [Inl IndexError,
           Inr (AggregatedData (Accelerometer 1 2 3) (Gps (21 / 2) (81 / 4)) 1),
           Inl IndexError, Inl IndexError, Inl IndexError]"
  by (simp add: read_def ensure_open_def open_files_ok
      next_row_closed_form [where a = header_acc and g = single_gps]
      header_acc_def single_gps_def fetch assemble_def convert_def field_at_def literal)

text \<open>
  C5, as amended. When the two rows fetched by \<^verbatim>\<open>read\<close> form a malformed record, \<^verbatim>\<open>read\<close>
  raises \<^verbatim>\<open>IndexError\<close> or \<^verbatim>\<open>ValueError\<close> (the errors the specification calls
  MalformedRecord) and returns no reading. It leaves the GPS reader with the rows after
  the fetched GPS row. It leaves the accelerometer reader with exactly the rows after
  the bad row when the GPS fetch of the call did not restart the sources; when the GPS
  fetch restarted the sources, it leaves the accelerometer reader at the second row of
  its file. Here \<open>ra\<close> and \<open>rg\<close> are the rows
  the two readers have left when the fetches begin, and the fetches are not assumed to
  return: that they do follows from the rows.
\<close>

theorem read_malformed_record:
  assumes "ensure_open pf fs s = (Inr (), s0)"
    and "fs (acc_filename s0) = Some a" and "fs (gps_filename s0) = Some g"
    and "acc_reader s0 = Some ra" and "gps_reader s0 = Some rg"
    and "skip_blank (pass_rows ra a) = Some (acc_row, ra')"
    and "skip_blank (pass_rows (if skip_blank ra = None then tl g else rg) g) = Some (gps_row, rg')"
    and "malformed pint pf acc_row gps_row"
  shows "\<exists>e s2. (e = IndexError \<or> e = ValueError) \<and>
           read pint pf fs now s = Some (Inl e, s2) \<and>
           acc_reader s2 =
             Some (if skip_blank (if skip_blank ra = None then tl g else rg) = None then tl a else ra') \<and>
           gps_reader s2 = Some rg'"
proof -
  from assemble_malformed [OF assms(8), of now] obtain e where
    e: "e = IndexError \<or> e = ValueError" "assemble pint pf now acc_row gps_row = Inl e" by blast
  from read_two_fetches [OF assms(1-7), of pint now] e show ?thesis by auto
qed

theorem read_malformed_record_witness:
  "\<exists>e s2. (e = IndexError \<or> e = ValueError) \<and>
     read dec_int dec_float (two_files (Some header_acc) (Some gps_sample)) (0::nat) fresh = Some (Inl e, s2) \<and>
     acc_reader s2 = Some [[''1'', ''2'', ''3'']] \<and>
     gps_reader s2 = Some [[''11.5'', ''21.25'']]"
proof -
  let ?fs = "two_files (Some header_acc) (Some gps_sample)"
  let ?s0 = "opened fresh header_acc gps_sample"
  have 1: "ensure_open dec_float ?fs fresh = (Inr (), ?s0)"
    by (simp add: ensure_open_def open_files_ok)
  have 2: "?fs (acc_filename ?s0) = Some header_acc" "?fs (gps_filename ?s0) = Some gps_sample"
    by simp_all
  have 3: "acc_reader ?s0 = Some [[''1'', ''2''], [''1'', ''2'', ''3'']]"
    "gps_reader ?s0 = Some [[''10.5'', ''20.25''], [''11.5'', ''21.25'']]"
    by (simp_all add: opened_def header_acc_def gps_sample_def)
  have 4: "skip_blank (pass_rows [[''1'', ''2''], [''1'', ''2'', ''3'']] header_acc) =
      Some ([''1'', ''2''], [[''1'', ''2'', ''3'']])"
    by (simp add: pass_rows_def blank_row_def strip_def is_space_def)
  have 5: "skip_blank (pass_rows
        (if skip_blank [[''1'', ''2''], [''1'', ''2'', ''3'']] = None then tl gps_sample
         else [[''10.5'', ''20.25''], [''11.5'', ''21.25'']]) gps_sample) =
      Some ([''10.5'', ''20.25''], [[''11.5'', ''21.25'']])"
    by (simp add: pass_rows_def blank_row_def strip_def is_space_def)
  have 6: "malformed dec_int dec_float [''1'', ''2''] [''10.5'', ''20.25'']"
    by (simp add: malformed_def)
  from read_malformed_record [OF 1 2 3 4 5 6, of 0]
  show ?thesis by (simp add: blank_row_def strip_def is_space_def)
qed

text \<open>
  C6. A source that has only blank rows must make a fetch fail with an error instead of
  searching without end. The code has no such guard: with an accelerometer file of three
  blank rows, opening succeeds, and neither the fetch on the accelerometer channel nor
  \<^verbatim>\<open>read\<close> returns, since every restart finds the same blank rows again.
\<close>

theorem only_blank_rows_never_returns:
  "(case startReading dec_float (two_files (Some only_blank_acc) (Some gps_sample)) fresh of
      (r, s) \<Rightarrow>
        r = Inr () \<and>
        list_all blank_row only_blank_acc \<and>
        next_row dec_float (two_files (Some only_blank_acc) (Some gps_sample)) ''acc'' s = None) \<and>
   read dec_int dec_float (two_files (Some only_blank_acc) (Some gps_sample)) (0::nat) fresh = None"
  by (simp add: startReading_def open_files_ok read_def ensure_open_def
      next_row_closed_form [where a = only_blank_acc and g = gps_sample]
      only_blank_acc_def blank_row_def strip_def is_space_def channel_rows_def)

text \<open>
  C7. Inserting blank rows between rows of a source that are not blank changes nothing
  in what the fetches after a successful open return, for any number of fetches, and
  every row they return is a row that is not blank.
\<close>

theorem blank_rows_between_data_rows_are_skipped:
  assumes "fs (acc_filename s) = Some a" and "fs (gps_filename s) = Some g"
    and "fs' (acc_filename s) = Some a'" and "fs' (gps_filename s) = Some g'"
    and "blank_inserted (channel_rows source a g) (channel_rows source a' g')"
  shows "\<exists>t t'. startReading pf fs s = (Inr (), t) \<and> startReading pf fs' s = (Inr (), t') \<and>
           map_option fst (next_rows pf fs' source k t') = map_option fst (next_rows pf fs source k t) \<and>
           (case next_rows pf fs' source k t' of
              None \<Rightarrow> True
            | Some (rs, u) \<Rightarrow> list_all (\<lambda>r. case r of Inl e \<Rightarrow> False | Inr row \<Rightarrow> \<not> blank_row row) rs)"
proof -
  let ?t = "opened s a g" and ?t' = "opened s a' g'"
  let ?ds = "data (tl (channel_rows source a g))"
  from blank_inserted_data [OF assms(5)]
  have same: "data (tl (channel_rows source a' g')) = ?ds" by simp
  have 1: "map_option fst (next_rows pf fs source k ?t) = map_option (map Inr) (cyclic_rows ?ds ?ds k)"
    by (rule next_rows_cyclic) (simp_all add: assms(1,2))
  have "map_option fst (next_rows pf fs' source k ?t') =
      map_option (map Inr) (cyclic_rows (data (tl (channel_rows source a' g')))
        (data (tl (channel_rows source a' g'))) k)"
    by (rule next_rows_cyclic) (simp_all add: assms(3,4))
  then have 2: "map_option fst (next_rows pf fs' source k ?t') = map_option (map Inr) (cyclic_rows ?ds ?ds k)"
    by (simp only: same)
  have 3: "(case next_rows pf fs' source k ?t' of
              None \<Rightarrow> True
            | Some (rs, u) \<Rightarrow> list_all (\<lambda>r. case r of Inl e \<Rightarrow> False | Inr row \<Rightarrow> \<not> blank_row row) rs)"
  proof (cases "next_rows pf fs' source k ?t'")
    case None
    then show ?thesis by simp
  next
    case (Some p)
    obtain rs u where p: "p = (rs, u)" by (cases p)
    from 2 Some p obtain out where out: "cyclic_rows ?ds ?ds k = Some out" "rs = map Inr out"
      by (cases "cyclic_rows ?ds ?ds k") auto
    from cyclic_rows_from [OF out(1)] have "\<forall>r \<in> set out. \<not> blank_row r"
      by (auto dest: data_not_blank)
    with Some p out(2) show ?thesis by (simp add: list_all_iff)
  qed
  from assms(1-4) have "startReading pf fs s = (Inr (), ?t)" "startReading pf fs' s = (Inr (), ?t')"
    by (simp_all add: startReading_def open_files_ok)
  with 1 2 3 show ?thesis by auto
qed

theorem blank_rows_between_data_rows_are_skipped_witness:
  "\<exists>t t'. startReading dec_float (two_files (Some cycle_acc) (Some gps_sample)) fresh = (Inr (), t) \<and>
     startReading dec_float (two_files (Some cycle_acc_blanks) (Some gps_sample)) fresh = (Inr (), t') \<and>
     map_option fst (next_rows dec_float (two_files (Some cycle_acc_blanks) (Some gps_sample)) ''acc'' 3 t') =
       map_option fst (next_rows dec_float (two_files (Some cycle_acc) (Some gps_sample)) ''acc'' 3 t)"
proof -
  have b: "blank_inserted (channel_rows ''acc'' cycle_acc gps_sample)
      (channel_rows ''acc'' cycle_acc_blanks gps_sample)"
    by (simp add: channel_rows_def cycle_acc_inserted)
  from blank_rows_between_data_rows_are_skipped [of "two_files (Some cycle_acc) (Some gps_sample)" fresh
      cycle_acc gps_sample "two_files (Some cycle_acc_blanks) (Some gps_sample)" cycle_acc_blanks gps_sample
      "''acc''" dec_float 3, OF _ _ _ _ b]
  show ?thesis by auto
qed

text \<open>
  C8. A first row whose number of fields is not the expected one has to stay in place
  and be returned by the first fetch. The code does not do so: with the accelerometer
  rows \<open>1,2\<close> and \<open>4,5,6\<close>, the first row has two fields instead of three, opening
  succeeds, and the first fetch returns \<open>4,5,6\<close>.
\<close>

theorem short_first_row_dropped:
  "(case startReading dec_float (two_files (Some short_first_acc) (Some gps_sample)) fresh of
      (r, s) \<Rightarrow>
        r = Inr () \<and>
        length (hd short_first_acc) \<noteq> 3 \<and>
        map_option fst
          (next_row dec_float (two_files (Some short_first_acc) (Some gps_sample)) ''acc'' s) =
          Some (Inr [''4'', ''5'', ''6'']))"
  by (simp add: startReading_def open_files_ok
      next_row_closed_form [where a = short_first_acc and g = gps_sample]
      short_first_acc_def blank_row_def strip_def is_space_def channel_rows_def)

text \<open>
  C9. When both files exist and have no row, opening succeeds, from \<^verbatim>\<open>startReading\<close> and
  from the lazy open of \<^verbatim>\<open>read\<close> alike: both handles are held and both readers are at
  the end of their source.
\<close>

theorem zero_row_sources_open:
  assumes "fs (acc_filename s) = Some []" and "fs (gps_filename s) = Some []"
  shows "startReading pf fs s =
           (Inr (), s\<lparr>acc_file := Some (acc_filename s), gps_file := Some (gps_filename s),
                       acc_reader := Some [], gps_reader := Some []\<rparr>) \<and>
         (acc_reader s = None \<or> gps_reader s = None \<longrightarrow>
            ensure_open pf fs s =
              (Inr (), s\<lparr>acc_file := Some (acc_filename s), gps_file := Some (gps_filename s),
                          acc_reader := Some [], gps_reader := Some []\<rparr>))"
  using assms by (simp add: startReading_def ensure_open_def open_files_ok opened_def)

theorem zero_row_sources_open_witness:
  "startReading dec_float (two_files (Some []) (Some [])) fresh =
     (Inr (), fresh\<lparr>acc_file := Some ''accelerometer.csv'', gps_file := Some ''gps.csv'',
                      acc_reader := Some [], gps_reader := Some []\<rparr>) \<and>
   ensure_open dec_float (two_files (Some []) (Some [])) fresh =
     (Inr (), fresh\<lparr>acc_file := Some ''accelerometer.csv'', gps_file := Some ''gps.csv'',
                      acc_reader := Some [], gps_reader := Some []\<rparr>)"
  using zero_row_sources_open [of "two_files (Some []) (Some [])" fresh dec_float]
  by (simp add: fresh_def init_def two_files_def)




end
